theory Spec2Isabelle
  imports
    Complex_Main
    "HOL-Library.Word"
    "HOL-Library.Signed_Division"
    "HOL-Library.Mapping"
    "HOL-Library.AList_Mapping"
begin

section \<open>Package query: configuration registry, clause builder, request parser\<close>

text \<open>
  A shallow embedding of the Go package \<^verbatim>\<open>query\<close>. Go's \<^verbatim>\<open>int\<close> and \<^verbatim>\<open>int64\<close> are
  64-bit two's complement words (the 64-bit targets a server is built for); comparisons are
  the signed ones. Strings are byte lists. The process-wide \<^verbatim>\<open>configRegistry\<close> is passed
  explicitly. A \<^verbatim>\<open>*gorm.DB\<close> value is the list of builder calls made on it so far, oldest
  first: what the calls mean in SQL is the business of the external mapping layer.
\<close>

subsection \<open>Library functions of Go used by the package\<close>

type_synonym go_int = "64 word"

text \<open>\<^verbatim>\<open>strings.ToLower\<close> on the ASCII letters. No code point outside ASCII has one of the
  letters of \<^verbatim>\<open>desc\<close> as its lower case, so the comparisons made by the package are
  decided by this part of the function.\<close>

definition toLowerChar :: "char \<Rightarrow> char" where
  "toLowerChar c =
     (let n = (of_char c :: int) in if 65 \<le> n \<and> n \<le> 90 then char_of (n + 32) else c)"

definition ToLower :: "string \<Rightarrow> string" where
  "ToLower s = map toLowerChar s"

text \<open>\<^verbatim>\<open>strings.Split(s, sep)\<close> for a separator of one byte, which is how every call of the
  package uses it: \<open>n\<close> separators give \<open>n + 1\<close> pieces, the empty string gives one empty
  piece.\<close>

fun Split :: "string \<Rightarrow> char \<Rightarrow> string list" where
  "Split [] sep = [[]]"
| "Split (c # cs) sep =
     (if c = sep then [] # Split cs sep
      else (case Split cs sep of
              [] \<Rightarrow> [[c]]
            | p # ps \<Rightarrow> (c # p) # ps))"

text \<open>\<^verbatim>\<open>strings.Join(elems, sep)\<close>.\<close>

fun Join :: "string list \<Rightarrow> string \<Rightarrow> string" where
  "Join [] sep = []"
| "Join [x] sep = x"
| "Join (x # y # ys) sep = x @ sep @ Join (y # ys) sep"

text \<open>\<^verbatim>\<open>strconv.Atoi\<close>: an optional sign, then one or more decimal digits; an error
  (\<open>None\<close>) for anything else and for a value outside the range of \<^verbatim>\<open>int\<close>.\<close>

definition isDigit :: "char \<Rightarrow> bool" where
  "isDigit c = (let n = (of_char c :: int) in 48 \<le> n \<and> n \<le> 57)"

fun digitsValue :: "int \<Rightarrow> string \<Rightarrow> int" where
  "digitsValue acc [] = acc"
| "digitsValue acc (c # cs) = digitsValue (10 * acc + (of_char c - 48)) cs"

definition parseDigits :: "bool \<Rightarrow> string \<Rightarrow> go_int option" where
  "parseDigits neg ds =
     (if ds = [] \<or> \<not> list_all isDigit ds then None
      else (let n = digitsValue 0 ds in
            if neg then (if n \<le> 2 ^ 63 then Some (- word_of_int n) else None)
            else (if n < 2 ^ 63 then Some (word_of_int n) else None)))"

definition Atoi :: "string \<Rightarrow> go_int option" where
  "Atoi s =
     (case s of
        [] \<Rightarrow> None
      | c # rest \<Rightarrow>
          if c = CHR ''-'' then parseDigits True rest
          else if c = CHR ''+'' then parseDigits False rest
          else parseDigits False s)"

text \<open>Go's \<^verbatim>\<open>/\<close> and \<^verbatim>\<open>%\<close> on signed integers truncate towards zero; the most negative
  value divided by \<open>-1\<close> wraps around. Division by zero is a run-time panic, which the
  callers below make explicit.\<close>

definition go_quo :: "go_int \<Rightarrow> go_int \<Rightarrow> go_int" where
  "go_quo a b = word_of_int (sint a sdiv sint b)"

definition go_rem :: "go_int \<Rightarrow> go_int \<Rightarrow> go_int" where
  "go_rem a b = word_of_int (sint a smod sint b)"

subsection \<open>query\_config.go: the entity configuration registry\<close>

record EntityConfig =
  SearchableColumns :: "string list"
  SortableColumns :: "string list"
  DefaultSort :: "string list"
  DefaultIncludes :: "string list"

type_synonym registry = "string \<rightharpoonup> EntityConfig"

definition RegisterConfig :: "registry \<Rightarrow> string \<Rightarrow> EntityConfig \<Rightarrow> registry" where
  "RegisterConfig configRegistry entityType config = configRegistry(entityType \<mapsto> config)"

definition GetConfig :: "registry \<Rightarrow> string \<Rightarrow> EntityConfig option" where
  "GetConfig configRegistry entityType = configRegistry entityType"

definition IsValidSortColumn :: "registry \<Rightarrow> string \<Rightarrow> string \<Rightarrow> bool" where
  "IsValidSortColumn configRegistry entityType column =
     (case GetConfig configRegistry entityType of
        None \<Rightarrow> False
      | Some config \<Rightarrow> column \<in> set (SortableColumns config))"

definition IsValidSearchColumn :: "registry \<Rightarrow> string \<Rightarrow> string \<Rightarrow> bool" where
  "IsValidSearchColumn configRegistry entityType column =
     (case GetConfig configRegistry entityType of
        None \<Rightarrow> False
      | Some config \<Rightarrow> column \<in> set (SearchableColumns config))"

text \<open>The registrations of the package's example file.\<close>

definition RegisterDefaultConfigs :: "registry \<Rightarrow> registry" where
  "RegisterDefaultConfigs configRegistry =
     RegisterConfig configRegistry ''base_model''
       \<lparr>SearchableColumns = [''id'', ''created_at'', ''updated_at''],
        SortableColumns = [''id'', ''created_at'', ''updated_at''],
        DefaultSort = [''created_at''],
        DefaultIncludes = []\<rparr>"

definition ExampleRegistration :: "registry \<Rightarrow> registry" where
  "ExampleRegistration configRegistry =
     RegisterConfig
       (RegisterConfig configRegistry ''user''
          \<lparr>SearchableColumns = [''name'', ''email'', ''phone''],
           SortableColumns = [''name'', ''email'', ''created_at'', ''updated_at''],
           DefaultSort = [''created_at''],
           DefaultIncludes = [''Role'']\<rparr>)
       ''product''
       \<lparr>SearchableColumns = [''name'', ''description'', ''sku''],
        SortableColumns = [''name'', ''price'', ''created_at'', ''updated_at''],
        DefaultSort = [''name''],
        DefaultIncludes = [''Category'', ''Tags'']\<rparr>"

subsection \<open>The query options and the builder\<close>

definition DefaultPage :: go_int where "DefaultPage = 1"
definition DefaultPageSize :: go_int where "DefaultPageSize = 20"
definition MaxPageSize :: go_int where "MaxPageSize = 100"

record 'v QueryOptions =
  Page :: go_int
  PageSize :: go_int
  SortBy :: "string list"
  SortOrder :: "string list"
  Search :: string
  SearchColumns :: "string list"
  Filters :: "(string, 'v) mapping"
  Preload :: "string list"
  IncludeArchived :: bool

record QueryBuilder =
  entityType :: string
  config :: "EntityConfig option"

text \<open>The calls the builder makes on a \<^verbatim>\<open>*gorm.DB\<close>.\<close>

datatype 'v call =
    Offset go_int
  | Limit go_int
  | Order string
  | WhereMap "(string, 'v) mapping"
  | Where string "string list"
  | PreloadCall string
  | Unscoped

type_synonym 'v db = "'v call list"

definition NewQueryBuilder :: "registry \<Rightarrow> string \<Rightarrow> QueryBuilder" where
  "NewQueryBuilder configRegistry et =
     \<lparr>entityType = et, config = GetConfig configRegistry et\<rparr>"

definition applyPagination :: "QueryBuilder \<Rightarrow> 'v db \<Rightarrow> 'v QueryOptions \<Rightarrow> 'v db" where
  "applyPagination q db opts =
     (let opts = (if Page opts <s 1 then opts\<lparr>Page := DefaultPage\<rparr> else opts);
          opts = (if PageSize opts <s 1 then opts\<lparr>PageSize := DefaultPageSize\<rparr> else opts);
          opts = (if MaxPageSize <s PageSize opts then opts\<lparr>PageSize := MaxPageSize\<rparr> else opts);
          offset = (Page opts - 1) * PageSize opts
      in db @ [Offset offset, Limit (PageSize opts)])"

text \<open>\<^verbatim>\<open>fmt.Sprintf("%s %s", col, order)\<close> and \<^verbatim>\<open>fmt.Sprintf("%s ILIKE ?", col)\<close>.\<close>

definition orderClause :: "string \<Rightarrow> string \<Rightarrow> string" where
  "orderClause col order = col @ '' '' @ order"

definition likeCondition :: "string \<Rightarrow> string" where
  "likeCondition col = col @ '' ILIKE ?''"

text \<open>The loop of \<^verbatim>\<open>applySorting\<close> over \<^verbatim>\<open>opts.SortBy\<close>, from index \<open>i\<close> on; the result is
  \<^verbatim>\<open>orderClauses\<close>.\<close>

fun sortLoop :: "registry \<Rightarrow> QueryBuilder \<Rightarrow> string list \<Rightarrow> nat \<Rightarrow> string list \<Rightarrow> string list" where
  "sortLoop configRegistry q sortOrder i [] = []"
| "sortLoop configRegistry q sortOrder i (col # cols) =
     (if entityType q \<noteq> '''' \<and> \<not> IsValidSortColumn configRegistry (entityType q) col
      then sortLoop configRegistry q sortOrder (Suc i) cols
      else (let order = (if i < length sortOrder \<and> ToLower (sortOrder ! i) = ''desc''
                         then ''desc'' else ''asc'')
            in orderClause col order # sortLoop configRegistry q sortOrder (Suc i) cols))"

text \<open>The first block of \<^verbatim>\<open>applySorting\<close> either replaces the options or returns early
  (\<open>None\<close>) with the hard-coded order.\<close>

definition applySorting :: "registry \<Rightarrow> QueryBuilder \<Rightarrow> 'v db \<Rightarrow> 'v QueryOptions \<Rightarrow> 'v db" where
  "applySorting configRegistry q db opts =
     (case (if SortBy opts = [] then
              (case config q of
                 Some c \<Rightarrow>
                   if DefaultSort c \<noteq> [] then
                     Some (opts\<lparr>SortBy := DefaultSort c,
                                SortOrder := replicate (length (DefaultSort c)) ''asc''\<rparr>)
                   else None
               | None \<Rightarrow> None)
            else Some opts) of
        None \<Rightarrow> db @ [Order ''created_at desc'']
      | Some opts \<Rightarrow>
          (let orderClauses = sortLoop configRegistry q (SortOrder opts) 0 (SortBy opts)
           in if orderClauses \<noteq> [] then db @ [Order (Join orderClauses '', '')] else db))"

definition applyFilters :: "QueryBuilder \<Rightarrow> 'v db \<Rightarrow> 'v QueryOptions \<Rightarrow> 'v db" where
  "applyFilters q db opts =
     (if \<not> Mapping.is_empty (Filters opts) then db @ [WhereMap (Filters opts)] else db)"

text \<open>The loop of \<^verbatim>\<open>applySearch\<close>; the result is \<^verbatim>\<open>(conditions, args)\<close>.\<close>

fun searchLoop :: "registry \<Rightarrow> QueryBuilder \<Rightarrow> string \<Rightarrow> string list \<Rightarrow> string list \<times> string list" where
  "searchLoop configRegistry q searchTerm [] = ([], [])"
| "searchLoop configRegistry q searchTerm (col # cols) =
     (if entityType q \<noteq> '''' \<and> \<not> IsValidSearchColumn configRegistry (entityType q) col
      then searchLoop configRegistry q searchTerm cols
      else (case searchLoop configRegistry q searchTerm cols of
              (conditions, args) \<Rightarrow> (likeCondition col # conditions, searchTerm # args)))"

definition applySearch :: "registry \<Rightarrow> QueryBuilder \<Rightarrow> 'v db \<Rightarrow> 'v QueryOptions \<Rightarrow> 'v db" where
  "applySearch configRegistry q db opts =
     (if Search opts = '''' then db
      else
        (let searchColumns = SearchColumns opts;
             searchColumns = (case config q of
                                Some c \<Rightarrow> if searchColumns = [] then SearchableColumns c
                                          else searchColumns
                              | None \<Rightarrow> searchColumns)
         in if searchColumns = [] then db
            else
              (let searchTerm = ''%'' @ Search opts @ ''%''
               in case searchLoop configRegistry q searchTerm searchColumns of
                    (conditions, args) \<Rightarrow>
                      if conditions \<noteq> []
                      then db @ [Where (''('' @ Join conditions '' OR '' @ '')'') args]
                      else db)))"

definition applyPreload :: "QueryBuilder \<Rightarrow> 'v db \<Rightarrow> 'v QueryOptions \<Rightarrow> 'v db" where
  "applyPreload q db opts = fold (\<lambda>preload db. db @ [PreloadCall preload]) (Preload opts) db"

definition applyQuery ::
  "registry \<Rightarrow> QueryBuilder \<Rightarrow> 'v db \<Rightarrow> 'v QueryOptions \<Rightarrow> bool \<Rightarrow> 'v db" where
  "applyQuery configRegistry q db opts archived =
     (let db = applyPagination q db opts;
          db = applySorting configRegistry q db opts;
          db = applyFilters q db opts;
          db = applySearch configRegistry q db opts;
          db = applyPreload q db opts
      in if archived then db @ [Unscoped, Where ''deleted_at IS NOT NULL'' []]
         else db @ [Where ''deleted_at IS NULL'' []])"

definition Build :: "registry \<Rightarrow> QueryBuilder \<Rightarrow> 'v db \<Rightarrow> 'v QueryOptions \<Rightarrow> 'v db" where
  "Build configRegistry q db opts = applyQuery configRegistry q db opts False"

definition BuildArchived :: "registry \<Rightarrow> QueryBuilder \<Rightarrow> 'v db \<Rightarrow> 'v QueryOptions \<Rightarrow> 'v db" where
  "BuildArchived configRegistry q db opts = applyQuery configRegistry q db opts True"

text \<open>\<^verbatim>\<open>db.Session(&gorm.Session{})\<close> gives a handle of its own that carries the calls made
  so far. \<^verbatim>\<open>query.Count(&count)\<close> is the external layer: \<open>gormCount\<close> stands for the
  number it stores for the query it is run on, and \<open>CountQuery\<close> is that query.\<close>

definition Session :: "'v db \<Rightarrow> 'v db" where
  "Session db = db"

definition CountQuery ::
  "registry \<Rightarrow> QueryBuilder \<Rightarrow> 'v db \<Rightarrow> 'v QueryOptions \<Rightarrow> bool \<Rightarrow> 'v db" where
  "CountQuery configRegistry q db opts archived =
     applyQuery configRegistry q (Session db) opts archived"

definition Count ::
  "('v db \<Rightarrow> go_int) \<Rightarrow> registry \<Rightarrow> QueryBuilder \<Rightarrow> 'v db \<Rightarrow> 'v QueryOptions \<Rightarrow> bool \<Rightarrow> go_int" where
  "Count gormCount configRegistry q db opts archived =
     gormCount (CountQuery configRegistry q db opts archived)"

definition DefaultQueryOptions :: "'v QueryOptions" where
  "DefaultQueryOptions =
     \<lparr>Page = DefaultPage,
      PageSize = DefaultPageSize,
      SortBy = [''created_at''],
      SortOrder = [''desc''],
      Search = '''',
      SearchColumns = [],
      Filters = Mapping.empty,
      Preload = [],
      IncludeArchived = False\<rparr>"

subsection \<open>query\_middleware.go: the request parser and the response helpers\<close>

text \<open>A request is its parsed query string, \<^verbatim>\<open>url.Values\<close>: each parameter name with the
  list of its values. \<^verbatim>\<open>c.Query(key)\<close> is the first value, or the empty string.\<close>

type_synonym request = "(string, string list) mapping"

definition Query :: "request \<Rightarrow> string \<Rightarrow> string" where
  "Query c key = (case Mapping.lookup c key of Some (v # vs) \<Rightarrow> v | _ \<Rightarrow> '''')"

definition isReserved :: "string \<Rightarrow> bool" where
  "isReserved key =
     (key = ''page'' \<or> key = ''pageSize'' \<or> key = ''sortBy'' \<or>
      key = ''sortOrder'' \<or> key = ''search'' \<or> key = ''searchColumns'' \<or>
      key = ''preload'' \<or> key = ''includeArchived'')"

definition parseFilters :: "request \<Rightarrow> string QueryOptions \<Rightarrow> string QueryOptions" where
  "parseFilters c opts =
     (let filters = Mapping.map_values (\<lambda>key values. hd values)
                      (Mapping.filter (\<lambda>key values. \<not> isReserved key \<and> values \<noteq> []) c)
      in if \<not> Mapping.is_empty filters then opts\<lparr>Filters := filters\<rparr> else opts)"

definition ParseFromRequest :: "request \<Rightarrow> string QueryOptions" where
  "ParseFromRequest c =
     (let opts = DefaultQueryOptions;
          opts = (if Query c ''page'' \<noteq> '''' then
                    (case Atoi (Query c ''page'') of
                       Some page \<Rightarrow> if 0 <s page then opts\<lparr>Page := page\<rparr> else opts
                     | None \<Rightarrow> opts)
                  else opts);
          opts = (if Query c ''pageSize'' \<noteq> '''' then
                    (case Atoi (Query c ''pageSize'') of
                       Some pageSize \<Rightarrow> if 0 <s pageSize then opts\<lparr>PageSize := pageSize\<rparr> else opts
                     | None \<Rightarrow> opts)
                  else opts);
          opts = (if Query c ''sortBy'' \<noteq> ''''
                  then opts\<lparr>SortBy := Split (Query c ''sortBy'') CHR '',''\<rparr> else opts);
          opts = (if Query c ''sortOrder'' \<noteq> ''''
                  then opts\<lparr>SortOrder := Split (Query c ''sortOrder'') CHR '',''\<rparr> else opts);
          opts = (if Query c ''search'' \<noteq> ''''
                  then opts\<lparr>Search := Query c ''search''\<rparr> else opts);
          opts = (if Query c ''searchColumns'' \<noteq> ''''
                  then opts\<lparr>SearchColumns := Split (Query c ''searchColumns'') CHR '',''\<rparr>
                  else opts);
          opts = (if Query c ''preload'' \<noteq> ''''
                  then opts\<lparr>Preload := Split (Query c ''preload'') CHR '',''\<rparr> else opts);
          opts = (if Query c ''includeArchived'' \<noteq> ''''
                  then opts\<lparr>IncludeArchived :=
                              (Query c ''includeArchived'' = ''true'' \<or>
                               Query c ''includeArchived'' = ''1'')\<rparr>
                  else opts)
      in parseFilters c opts)"

text \<open>A \<^verbatim>\<open>gin.H\<close> is a map from field names to values. An integer division by zero is a
  run-time panic of Go.\<close>

datatype panic = DivideByZero

datatype 'a hvalue = IntV go_int | DataV "'a list"

type_synonym 'a H = "string \<rightharpoonup> 'a hvalue"

definition PaginatedResponse ::
  "'a list \<Rightarrow> go_int \<Rightarrow> go_int \<Rightarrow> go_int \<Rightarrow> panic + 'a H" where
  "PaginatedResponse data total' page pageSize =
     (if pageSize = 0 then Inl DivideByZero
      else
        (let totalPages = go_quo total' pageSize;
             totalPages = (if 0 <s go_rem total' pageSize then totalPages + 1 else totalPages)
         in Inr [''data'' \<mapsto> DataV data,
                 ''total'' \<mapsto> IntV total',
                 ''page'' \<mapsto> IntV page,
                 ''page_size'' \<mapsto> IntV pageSize,
                 ''total_pages'' \<mapsto> IntV totalPages]))"

definition ParseEntityType :: "'e \<Rightarrow> string" where
  "ParseEntityType entity =
     (let parts = Split [CHR ''t''] CHR ''.''
      in if 0 < length parts then ToLower (parts ! (length parts - 1)) else '''')"

definition Paginate :: "go_int \<Rightarrow> go_int \<Rightarrow> go_int \<times> go_int" where
  "Paginate page pageSize =
     (let page = (if page <s 1 then 1 else page);
          pageSize = (if pageSize <s 1 then DefaultPageSize else pageSize);
          pageSize = (if MaxPageSize <s pageSize then MaxPageSize else pageSize)
      in (page, pageSize))"

definition GetPageFromRequest :: "request \<Rightarrow> go_int" where
  "GetPageFromRequest c =
     (case Atoi (Query c ''page'') of
        None \<Rightarrow> DefaultPage
      | Some page \<Rightarrow> if page <s 1 then DefaultPage else page)"

definition GetPageSizeFromRequest :: "request \<Rightarrow> go_int" where
  "GetPageSizeFromRequest c =
     (case Atoi (Query c ''pageSize'') of
        None \<Rightarrow> DefaultPageSize
      | Some pageSize \<Rightarrow>
          if pageSize <s 1 then DefaultPageSize
          else if MaxPageSize <s pageSize then MaxPageSize
          else pageSize)"

definition RespondWithPagination ::
  "request \<Rightarrow> go_int \<Rightarrow> go_int \<Rightarrow> go_int \<Rightarrow> go_int \<Rightarrow> panic + 'a H" where
  "RespondWithPagination c status total' page pageSize =
     (if pageSize = 0 then Inl DivideByZero
      else
        (let totalPages = go_quo total' pageSize;
             totalPages = (if 0 <s go_rem total' pageSize then totalPages + 1 else totalPages)
         in Inr [''total'' \<mapsto> IntV total',
                 ''page'' \<mapsto> IntV page,
                 ''page_size'' \<mapsto> IntV pageSize,
                 ''total_pages'' \<mapsto> IntV totalPages]))"

section \<open>Properties\<close>

subsection \<open>Signed 64-bit arithmetic\<close>

lemma sint_word_of_int_64:
  "- (2 ^ 63) \<le> k \<Longrightarrow> k < 2 ^ 63 \<Longrightarrow> sint (word_of_int k :: go_int) = k"
  by (simp add: sint_sbintrunc' signed_take_bit_int_eq_self)

lemma sint_bounds_64: "- (2 ^ 63) \<le> sint (w :: go_int)" "sint (w :: go_int) < 2 ^ 63"
  using sint_ge [of w] sint_lt [of w] by simp_all

lemma sint_go_quo:
  assumes "0 \<le> sint t" "1 \<le> sint p"
  shows "sint (go_quo t p) = sint t div sint p"
proof -
  have "sint t sdiv sint p = sint t div sint p"
    using assms by (simp add: signed_divide_int_def sgn_if)
  moreover have "0 \<le> sint t div sint p" using assms by (simp add: pos_imp_zdiv_nonneg_iff)
  moreover have "sint t div sint p \<le> sint t" using assms
    by (metis div_by_1 zdiv_mono2 zero_less_one)
  ultimately show ?thesis
    using sint_bounds_64 [of t] by (simp add: go_quo_def sint_word_of_int_64)
qed

lemma sint_go_rem:
  assumes "0 \<le> sint t" "1 \<le> sint p"
  shows "sint (go_rem t p) = sint t mod sint p"
proof -
  have "sint t smod sint p = sint t mod sint p"
    using assms by (simp add: signed_modulo_int_def sgn_if)
  moreover have "0 \<le> sint t mod sint p" using assms by simp
  moreover have "sint t mod sint p < sint p" using assms by simp
  ultimately show ?thesis
    using sint_bounds_64 [of p] by (simp add: go_rem_def sint_word_of_int_64)
qed

lemma total_pages_ceiling:
  assumes "0 \<le> (t::int)" "1 \<le> p"
  shows "(if 0 < t mod p then t div p + 1 else t div p) = \<lceil>real_of_int t / real_of_int p\<rceil>"
proof -
  have p: "0 < p" using assms by simp
  have "\<lceil>real_of_int t / real_of_int p\<rceil> = - (- t div p)"
    by (rule ceiling_divide_eq_div)
  also have "\<dots> = (if 0 < t mod p then t div p + 1 else t div p)"
  proof (cases "t mod p = 0")
    case True
    then have "p dvd t" by (simp add: dvd_eq_mod_eq_0)
    then have "- t div p = - (t div p)" by (simp add: dvd_neg_div)
    with True show ?thesis by simp
  next
    case False
    then have pos: "0 < t mod p" using p by (simp add: less_le)
    have "- t div p = - (t div p) - 1" using p False by (simp add: zdiv_zminus1_eq_if)
    with pos show ?thesis by simp
  qed
  finally show ?thesis by simp
qed

lemma normalized_pageSize_range:
  fixes ps :: go_int
  defines "n \<equiv> (if ps <s 1 then 20 else if 100 <s ps then 100 else ps)"
  shows "1 \<le> sint n \<and> sint n \<le> 100"
  by (auto simp add: n_def word_sless_alt)

lemma normalized_page_range:
  fixes p :: go_int
  shows "1 \<le> sint (if p <s 1 then 1 else p)"
  by (auto simp add: word_sless_alt)

lemma sint_offset_no_overflow:
  fixes p n :: go_int
  assumes p: "1 \<le> sint p" "sint p \<le> 92233720368547758"
      and n: "1 \<le> sint n" "sint n \<le> 100"
  shows "sint ((p - 1) * n) = (sint p - 1) * sint n"
proof -
  have "(sint p - 1) * sint n \<le> 92233720368547757 * 100"
    using p n by (intro mult_mono) simp_all
  then have hi: "(sint p - 1) * sint n < 2 ^ 63" by simp
  have lo: "0 \<le> (sint p - 1) * sint n" using p n by simp
  have "(p - 1) * n = word_of_int ((sint p - 1) * sint n)" by simp
  then show ?thesis using lo hi sint_word_of_int_64 [of "(sint p - 1) * sint n"] by simp
qed

lemma sint_offset_wraps:
  fixes p n :: go_int
  shows "sint ((p - 1) * n) = signed_take_bit 63 ((sint p - 1) * sint n)"
proof -
  have "(p - 1) * n = word_of_int ((sint p - 1) * sint n)" by simp
  then have "sint ((p - 1) * n) = sint (word_of_int ((sint p - 1) * sint n) :: go_int)"
    by (rule arg_cong)
  then show ?thesis by (simp only: sint_sbintrunc') simp
qed

subsection \<open>Strings\<close>

text \<open>The test \<^verbatim>\<open>strings.ToLower(s) == "desc"\<close> accepts exactly the sixteen spellings of
  \<^verbatim>\<open>desc\<close> in upper and lower case letters.\<close>

lemma toLowerChar_eq_iff:
  assumes k: "of_char t = (k::int)" "97 \<le> k" "k \<le> 122" and u: "of_char u = k - 32"
  shows "toLowerChar c = t \<longleftrightarrow> c = t \<or> c = u"
proof -
  define n :: int where "n = of_char c"
  have n256: "n mod 256 = n" unfolding n_def by simp
  have ct: "c = t \<longleftrightarrow> n = k"
    using k(1) unfolding n_def by (metis of_char_eq_iff)
  have cu: "c = u \<longleftrightarrow> n = k - 32"
    using u unfolding n_def by (metis of_char_eq_iff)
  show ?thesis
  proof (cases "65 \<le> n \<and> n \<le> 90")
    case True
    then have "toLowerChar c = char_of (n + 32)"
      by (simp add: toLowerChar_def Let_def n_def)
    moreover have "char_of (n + 32) = t \<longleftrightarrow> n + 32 = k"
      using True k by (simp add: char_of_eq_iff take_bit_eq_mod)
    ultimately show ?thesis using True k ct cu by auto
  next
    case False
    then have "toLowerChar c = c"
      by (auto simp add: toLowerChar_def Let_def n_def)
    then show ?thesis using False k ct cu by auto
  qed
qed

lemma ToLower_desc_iff:
  "ToLower s = ''desc'' \<longleftrightarrow>
     (\<exists>a b c d. s = [a, b, c, d] \<and> (a = CHR ''d'' \<or> a = CHR ''D'') \<and> (b = CHR ''e'' \<or> b = CHR ''E'')
        \<and> (c = CHR ''s'' \<or> c = CHR ''S'') \<and> (d = CHR ''c'' \<or> d = CHR ''C''))"
proof -
  have d: "toLowerChar x = CHR ''d'' \<longleftrightarrow> x = CHR ''d'' \<or> x = CHR ''D''" for x
    by (rule toLowerChar_eq_iff [of _ 100]) simp_all
  have e: "toLowerChar x = CHR ''e'' \<longleftrightarrow> x = CHR ''e'' \<or> x = CHR ''E''" for x
    by (rule toLowerChar_eq_iff [of _ 101]) simp_all
  have s: "toLowerChar x = CHR ''s'' \<longleftrightarrow> x = CHR ''s'' \<or> x = CHR ''S''" for x
    by (rule toLowerChar_eq_iff [of _ 115]) simp_all
  have c: "toLowerChar x = CHR ''c'' \<longleftrightarrow> x = CHR ''c'' \<or> x = CHR ''C''" for x
    by (rule toLowerChar_eq_iff [of _ 99]) simp_all
  have "ToLower s = ''desc'' \<longleftrightarrow>
     (\<exists>a b c d. s = [a, b, c, d] \<and> toLowerChar a = CHR ''d'' \<and> toLowerChar b = CHR ''e''
        \<and> toLowerChar c = CHR ''s'' \<and> toLowerChar d = CHR ''c'')"
    unfolding ToLower_def by (auto simp add: map_eq_Cons_conv)
  then show ?thesis unfolding d e s c .
qed

lemma ToLower_asc: "ToLower ''asc'' \<noteq> ''desc''"
  by (simp add: ToLower_def)

lemma Split_nonempty: "Split s sep \<noteq> []"
  by (induction s) (simp_all split: list.splits)

subsection \<open>The steps of the builder\<close>

text \<open>Each step appends its calls to the handle it is given, so the built query is the
  given handle followed by the calls of pagination, sorting, filters, search, preload and the
  archive partition, in this order. The two loops are filters over the requested columns.\<close>

lemma sortLoop_enumerate:
  "sortLoop reg q so i cols =
     map (\<lambda>(j, col). orderClause col
            (if j < length so \<and> ToLower (so ! j) = ''desc'' then ''desc'' else ''asc''))
       (filter (\<lambda>(j, col). entityType q = '''' \<or> IsValidSortColumn reg (entityType q) col)
          (enumerate i cols))"
  by (induction cols arbitrary: i) (simp_all add: Let_def)

lemma sortLoop_all_asc:
  "sortLoop reg q (replicate n ''asc'') i cols =
     map (\<lambda>col. orderClause col ''asc'')
       (filter (\<lambda>col. entityType q = '''' \<or> IsValidSortColumn reg (entityType q) col) cols)"
  by (induction cols arbitrary: i) (auto simp add: Let_def ToLower_asc)

lemma searchLoop_filter:
  "searchLoop reg q searchTerm cols =
     (map likeCondition
        (filter (\<lambda>col. entityType q = '''' \<or> IsValidSearchColumn reg (entityType q) col) cols),
      replicate
        (length (filter (\<lambda>col. entityType q = '''' \<or> IsValidSearchColumn reg (entityType q) col) cols))
        searchTerm)"
  by (induction cols) simp_all

lemma applyPagination_append:
  "applyPagination q db opts = db @ applyPagination q [] opts"
  by (simp add: applyPagination_def Let_def)

lemma applySorting_append:
  "applySorting reg q db opts = db @ applySorting reg q [] opts"
  by (simp add: applySorting_def Let_def split: option.splits)

lemma applyFilters_append:
  "applyFilters q db opts = db @ applyFilters q [] opts"
  by (simp add: applyFilters_def)

lemma applySearch_append:
  "applySearch reg q db opts = db @ applySearch reg q [] opts"
  by (simp add: applySearch_def Let_def split: option.splits prod.splits)

lemma fold_append_calls:
  "fold (\<lambda>x db. db @ [f x]) xs db = db @ map f xs"
  by (induction xs arbitrary: db) simp_all

lemma applyPreload_eq:
  "applyPreload q db opts = db @ map PreloadCall (Preload opts)"
  by (simp add: applyPreload_def fold_append_calls)

lemma applyQuery_parts:
  "applyQuery reg q db opts archived =
     db @ applyPagination q [] opts @ applySorting reg q [] opts @ applyFilters q [] opts
        @ applySearch reg q [] opts @ map PreloadCall (Preload opts)
        @ (if archived then [Unscoped, Where ''deleted_at IS NOT NULL'' []]
           else [Where ''deleted_at IS NULL'' []])"
proof -
  define d1 where "d1 = applyPagination q db opts"
  define d2 where "d2 = applySorting reg q d1 opts"
  define d3 where "d3 = applyFilters q d2 opts"
  define d4 where "d4 = applySearch reg q d3 opts"
  have 1: "d1 = db @ applyPagination q [] opts"
    unfolding d1_def by (rule applyPagination_append)
  have 2: "d2 = d1 @ applySorting reg q [] opts"
    unfolding d2_def by (rule applySorting_append)
  have 3: "d3 = d2 @ applyFilters q [] opts"
    unfolding d3_def by (rule applyFilters_append)
  have 4: "d4 = d3 @ applySearch reg q [] opts"
    unfolding d4_def by (rule applySearch_append)
  have "applyQuery reg q db opts archived =
     applyPreload q d4 opts
       @ (if archived then [Unscoped, Where ''deleted_at IS NOT NULL'' []]
           else [Where ''deleted_at IS NULL'' []])"
    by (simp add: applyQuery_def Let_def d1_def d2_def d3_def d4_def)
  then show ?thesis
    by (simp add: applyPreload_eq 1 2 3 4)
qed

lemma applyPagination_calls:
  "applyPagination q [] opts =
     [Offset (((if Page opts <s 1 then 1 else Page opts) - 1)
               * (if PageSize opts <s 1 then 20
                  else if 100 <s PageSize opts then 100 else PageSize opts)),
      Limit (if PageSize opts <s 1 then 20
             else if 100 <s PageSize opts then 100 else PageSize opts)]"
  by (simp add: applyPagination_def Let_def DefaultPage_def DefaultPageSize_def MaxPageSize_def)

lemma IsValidSortColumn_member:
  "IsValidSortColumn reg et col \<longleftrightarrow>
     col \<in> set (case GetConfig reg et of None \<Rightarrow> [] | Some cfg \<Rightarrow> SortableColumns cfg)"
  by (simp add: IsValidSortColumn_def split: option.splits)

lemma IsValidSearchColumn_member:
  "IsValidSearchColumn reg et col \<longleftrightarrow>
     col \<in> set (case GetConfig reg et of None \<Rightarrow> [] | Some cfg \<Rightarrow> SearchableColumns cfg)"
  by (simp add: IsValidSearchColumn_def split: option.splits)

lemma sortLoop_whitelisted:
  assumes "entityType q \<noteq> ''''"
  shows "sortLoop reg q so 0 cols =
     map (\<lambda>(i, col). col @ '' '' @
            (if i < length so \<and> ToLower (so ! i) = ''desc'' then ''desc'' else ''asc''))
       (filter (\<lambda>(i, col). col \<in> set (case GetConfig reg (entityType q) of
                                             None \<Rightarrow> [] | Some cfg \<Rightarrow> SortableColumns cfg))
          (enumerate 0 cols))"
  using assms
  by (simp add: sortLoop_enumerate orderClause_def IsValidSortColumn_member)

lemma sortLoop_default_whitelisted:
  assumes "entityType q \<noteq> ''''"
  shows "sortLoop reg q (replicate n ''asc'') 0 cols =
     map (\<lambda>(i, col). col @ '' '' @
            (if i < length ([] :: string list) \<and> ToLower ([] ! i) = ''desc'' then ''desc'' else ''asc''))
       (filter (\<lambda>(i, col). col \<in> set (case GetConfig reg (entityType q) of
                                             None \<Rightarrow> [] | Some cfg \<Rightarrow> SortableColumns cfg))
          (enumerate 0 cols))"
proof -
  have "(\<lambda>(i, col). col @ '' '' @
            (if i < length (replicate n ''asc'') \<and> ToLower (replicate n ''asc'' ! i) = ''desc''
             then ''desc'' else ''asc''))
        = (\<lambda>(i, col). col @ '' '' @
            (if i < length ([] :: string list) \<and> ToLower ([] ! i) = ''desc'' then ''desc'' else ''asc''))"
    by (rule ext) (auto simp add: ToLower_asc)
  then show ?thesis
    unfolding sortLoop_whitelisted [OF assms] by simp
qed

lemma applySorting_whitelisted:
  assumes "entityType q \<noteq> ''''"
  shows "applySorting reg q [] opts =
     (let sortable = (case GetConfig reg (entityType q) of
                        None \<Rightarrow> [] | Some cfg \<Rightarrow> SortableColumns cfg);
          requested = (if SortBy opts = []
                       then (case config q of None \<Rightarrow> [] | Some c \<Rightarrow> DefaultSort c)
                       else SortBy opts);
          orders = (if SortBy opts = [] then [] else SortOrder opts);
          retained = filter (\<lambda>(i, col). col \<in> set sortable) (enumerate 0 requested);
          orderClauses =
            map (\<lambda>(i, col). col @ '' '' @
                   (if i < length orders \<and> ToLower (orders ! i) = ''desc''
                    then ''desc'' else ''asc''))
              retained
      in if requested = [] then [Order ''created_at desc'']
         else if orderClauses = [] then [] else [Order (Join orderClauses '', '')])"
proof (cases "SortBy opts = []")
  case False
  then show ?thesis
    by (simp add: applySorting_def Let_def sortLoop_whitelisted [OF assms] del: sortLoop.simps)
next
  case True
  show ?thesis
  proof (cases "config q")
    case None
    with True show ?thesis by (simp add: applySorting_def)
  next
    case (Some c)
    show ?thesis
    proof (cases "DefaultSort c = []")
      case True
      with Some \<open>SortBy opts = []\<close> show ?thesis by (simp add: applySorting_def)
    next
      case False
      with Some True show ?thesis
        by (simp add: applySorting_def Let_def sortLoop_default_whitelisted [OF assms]
            del: sortLoop.simps)
    qed
  qed
qed

lemma applySearch_whitelisted:
  assumes "entityType q \<noteq> ''''"
  shows "applySearch reg q [] opts =
     (let searchable = (case GetConfig reg (entityType q) of
                          None \<Rightarrow> [] | Some cfg \<Rightarrow> SearchableColumns cfg);
          candidates = (if SearchColumns opts \<noteq> [] then SearchColumns opts
                        else (case config q of Some c \<Rightarrow> SearchableColumns c | None \<Rightarrow> []));
          surviving = filter (\<lambda>col. col \<in> set searchable) candidates
      in if Search opts = '''' \<or> surviving = [] then []
         else [Where (''('' @ Join (map (\<lambda>col. col @ '' ILIKE ?'') surviving) '' OR '' @ '')'')
                 (replicate (length surviving) (''%'' @ Search opts @ ''%''))])"
proof -
  have like: "likeCondition = (\<lambda>col. col @ '' ILIKE ?'')"
    by (rule ext) (simp add: likeCondition_def)
  show ?thesis
    using assms
    by (auto simp add: applySearch_def searchLoop_filter like Let_def IsValidSearchColumn_member
        split: option.splits)
qed

lemma sortLoop_only_first_desc:
  "sortLoop reg q [''desc''] 0 cols =
     map (\<lambda>(i, col). col @ (if i = 0 then '' desc'' else '' asc''))
       (filter (\<lambda>(i, col). entityType q = '''' \<or> IsValidSortColumn reg (entityType q) col)
          (enumerate 0 cols))"
proof -
  have "(\<lambda>(j, col). orderClause col
            (if j < length [''desc''] \<and> ToLower ([''desc''] ! j) = ''desc'' then ''desc'' else ''asc''))
        = (\<lambda>(i, col). col @ (if i = 0 then '' desc'' else '' asc''))"
    by (rule ext) (auto simp add: orderClause_def ToLower_def toLowerChar_def)
  then show ?thesis unfolding sortLoop_enumerate by simp
qed

lemmas builder_defs =
  Build_def BuildArchived_def applyQuery_def applyPagination_def applySorting_def
  applyFilters_def applySearch_def applyPreload_def NewQueryBuilder_def GetConfig_def
  RegisterConfig_def IsValidSortColumn_def IsValidSearchColumn_def ExampleRegistration_def
  DefaultQueryOptions_def DefaultPage_def DefaultPageSize_def MaxPageSize_def
  orderClause_def likeCondition_def ToLower_def toLowerChar_def Let_def char_of_eq_iff

lemma parseFilters_fields:
  "SortBy (parseFilters c opts) = SortBy opts" "SortOrder (parseFilters c opts) = SortOrder opts"
  by (simp_all add: parseFilters_def Let_def)

lemma ParseFromRequest_SortOrder:
  "SortOrder (ParseFromRequest c) =
     (if Query c ''sortOrder'' \<noteq> '''' then Split (Query c ''sortOrder'') CHR '','' else [''desc''])"
  by (simp add: ParseFromRequest_def parseFilters_fields Let_def DefaultQueryOptions_def
      split: option.splits)

lemma ParseFromRequest_SortBy:
  "SortBy (ParseFromRequest c) =
     (if Query c ''sortBy'' \<noteq> '''' then Split (Query c ''sortBy'') CHR '','' else [''created_at''])"
  by (simp add: ParseFromRequest_def parseFilters_fields Let_def DefaultQueryOptions_def
      split: option.splits)

subsection \<open>Pagination\<close>

text \<open>
  C5 (as the code has it). \<^verbatim>\<open>applyPagination\<close> (and \<^verbatim>\<open>Paginate\<close>, which normalizes the same
  way) replaces a page below 1 by 1 and keeps any other page; replaces a page size below 1 by
  20, a page size above 100 by 100, and keeps any other page size, so the normalized size lies
  in 1..100. The limit handed to the data layer is the normalized page size. The offset is the
  product \<open>(page - 1) * pageSize\<close> of the normalized values as Go's multiplication on \<^verbatim>\<open>int\<close>
  computes it: the integer product wrapped into the signed 64-bit range. It is the integer
  product itself whenever the normalized page is at most 92233720368547758, the largest page
  for which no page size of 1..100 can carry the product past the range of \<^verbatim>\<open>int\<close>.
\<close>

theorem applyPagination_normalizes:
  fixes opts :: "'v QueryOptions"
  shows "let page = (if Page opts <s 1 then 1 else Page opts);
             pageSize = (if PageSize opts <s 1 then 20
                         else if 100 <s PageSize opts then 100 else PageSize opts)
         in applyPagination q db opts = db @ [Offset ((page - 1) * pageSize), Limit pageSize]
            \<and> Paginate (Page opts) (PageSize opts) = (page, pageSize)
            \<and> 1 \<le> sint page \<and> 1 \<le> sint pageSize \<and> sint pageSize \<le> 100
            \<and> sint ((page - 1) * pageSize)
                = signed_take_bit 63 ((sint page - 1) * sint pageSize)
            \<and> (sint page \<le> 92233720368547758 \<longrightarrow>
                 sint ((page - 1) * pageSize) = (sint page - 1) * sint pageSize)"
proof -
  define page where "page = (if Page opts <s 1 then 1 else Page opts)"
  define pageSize where "pageSize = (if PageSize opts <s 1 then 20
                         else if 100 <s PageSize opts then 100 else PageSize opts)"
  have r1: "1 \<le> sint page" unfolding page_def by (rule normalized_page_range)
  have r2: "1 \<le> sint pageSize \<and> sint pageSize \<le> 100"
    unfolding pageSize_def by (rule normalized_pageSize_range)
  have a: "applyPagination q db opts = db @ [Offset ((page - 1) * pageSize), Limit pageSize]"
    by (simp add: applyPagination_def page_def pageSize_def Let_def
        DefaultPage_def DefaultPageSize_def MaxPageSize_def)
  have b: "Paginate (Page opts) (PageSize opts) = (page, pageSize)"
    by (simp add: Paginate_def page_def pageSize_def Let_def
        DefaultPageSize_def MaxPageSize_def)
  have w: "sint ((page - 1) * pageSize) = signed_take_bit 63 ((sint page - 1) * sint pageSize)"
    by (rule sint_offset_wraps)
  have c: "sint page \<le> 92233720368547758 \<longrightarrow>
                 sint ((page - 1) * pageSize) = (sint page - 1) * sint pageSize"
    using r1 r2 by (simp add: sint_offset_no_overflow)
  from a b c w r1 r2 show ?thesis
    unfolding page_def [symmetric] pageSize_def [symmetric] Let_def by blast
qed

text \<open>Page 3 with page size 500 is served as offset 200, limit 100; page 0 with page size 0
  as offset 0, limit 20.\<close>

theorem applyPagination_normalizes_witness:
  "sint (3 :: go_int) \<le> 92233720368547758
   \<and> applyPagination (NewQueryBuilder Map.empty ''user'') []
         ((DefaultQueryOptions :: string QueryOptions)\<lparr>Page := 3, PageSize := 500\<rparr>)
       = [Offset 200, Limit 100]
   \<and> sint ((3 - 1) * 100 :: go_int) = (sint (3 :: go_int) - 1) * sint (100 :: go_int)
   \<and> applyPagination (NewQueryBuilder Map.empty ''user'') []
         ((DefaultQueryOptions :: string QueryOptions)\<lparr>Page := 0, PageSize := 0\<rparr>)
       = [Offset 0, Limit 20]"
  using applyPagination_normalizes
          [of "(DefaultQueryOptions :: string QueryOptions)\<lparr>Page := 3, PageSize := 500\<rparr>"
              "NewQueryBuilder Map.empty ''user''" "[]"]
        applyPagination_normalizes
          [of "(DefaultQueryOptions :: string QueryOptions)\<lparr>Page := 0, PageSize := 0\<rparr>"
              "NewQueryBuilder Map.empty ''user''" "[]"]
  by (simp add: Let_def word_sless_alt)

text \<open>Stated for every options value with the integer product, the property fails for large
  pages: the request \<^verbatim>\<open>?page=9223372036854775807\<close> is parsed to that page, and the offset
  applied with the default page size 20 is \<open>-40\<close>, not 9223372036854775806 times 20.\<close>

theorem huge_page_offset_wraps:
  "Page (ParseFromRequest (Mapping.update ''page'' [''9223372036854775807''] Mapping.empty))
     = 9223372036854775807
   \<and> applyPagination (NewQueryBuilder Map.empty ''user'') []
        (ParseFromRequest (Mapping.update ''page'' [''9223372036854775807''] Mapping.empty))
       = [Offset (- 40), Limit 20]
   \<and> sint (- 40 :: go_int) = - 40
   \<and> (sint (9223372036854775807 :: go_int) - 1) * sint (20 :: go_int) = 184467440737095516120"
proof -
  have q: "Query (Mapping.update ''page'' [''9223372036854775807''] Mapping.empty) key
             = (if key = ''page'' then ''9223372036854775807'' else '''')" for key
    by (simp add: Query_def lookup_update')
  have at: "Atoi ''9223372036854775807'' = Some 9223372036854775807"
    by (simp add: Atoi_def parseDigits_def isDigit_def Let_def)
  have flt: "Page (parseFilters c opts) = Page opts"
            "PageSize (parseFilters c opts) = PageSize opts" for c opts
    by (simp_all add: parseFilters_def Let_def)
  have pos: "(0 :: go_int) <s 9223372036854775807" by (simp add: word_sless_alt)
  have p: "Page (ParseFromRequest (Mapping.update ''page'' [''9223372036854775807''] Mapping.empty))
     = 9223372036854775807"
    by (simp add: ParseFromRequest_def q at flt pos Let_def DefaultQueryOptions_def)
  have ps: "PageSize (ParseFromRequest (Mapping.update ''page'' [''9223372036854775807''] Mapping.empty))
     = 20"
    by (simp add: ParseFromRequest_def q at flt pos Let_def DefaultQueryOptions_def
        DefaultPageSize_def)
  have "applyPagination (NewQueryBuilder Map.empty ''user'') []
        (ParseFromRequest (Mapping.update ''page'' [''9223372036854775807''] Mapping.empty))
       = [Offset (- 40), Limit 20]"
    by (simp add: applyPagination_calls p ps word_sless_alt)
  with p show ?thesis by simp
qed

subsection \<open>Sorting\<close>

text \<open>
  C4 (as the code has it). With an empty \<^verbatim>\<open>SortBy\<close>, a builder made for entity type \<open>et\<close>
  falls back to the hard-coded order \<^verbatim>\<open>created_at desc\<close> when the entity has no registered
  configuration and also when its configuration has an empty \<^verbatim>\<open>DefaultSort\<close>. Otherwise it
  orders ascending by the columns of \<^verbatim>\<open>DefaultSort\<close> that pass the same whitelist check as
  requested columns do (all of them when the entity type is the empty string), and applies
  no order when none passes.
\<close>

theorem default_sort_when_SortBy_empty:
  assumes "SortBy opts = []"
  shows "applySorting reg (NewQueryBuilder reg et) db opts =
     (case GetConfig reg et of
        None \<Rightarrow> db @ [Order ''created_at desc'']
      | Some cfg \<Rightarrow>
          if DefaultSort cfg = [] then db @ [Order ''created_at desc'']
          else
            (let cols = filter (\<lambda>col. et = '''' \<or> col \<in> set (SortableColumns cfg)) (DefaultSort cfg)
             in if cols = [] then db
                else db @ [Order (Join (map (\<lambda>col. col @ '' asc'') cols) '', '')]))"
proof (cases "GetConfig reg et")
  case None
  with assms show ?thesis by (simp add: applySorting_def NewQueryBuilder_def)
next
  case (Some cfg)
  show ?thesis
  proof (cases "DefaultSort cfg = []")
    case True
    with Some assms show ?thesis by (simp add: applySorting_def NewQueryBuilder_def)
  next
    case False
    have keep: "(\<lambda>col. entityType (NewQueryBuilder reg et) = '''' \<or>
                   IsValidSortColumn reg (entityType (NewQueryBuilder reg et)) col)
          = (\<lambda>col. et = '''' \<or> col \<in> set (SortableColumns cfg))"
      using Some by (simp add: NewQueryBuilder_def IsValidSortColumn_def)
    have "sortLoop reg (NewQueryBuilder reg et) (replicate (length (DefaultSort cfg)) ''asc'') 0
            (DefaultSort cfg)
          = map (\<lambda>col. col @ '' asc'')
              (filter (\<lambda>col. et = '''' \<or> col \<in> set (SortableColumns cfg)) (DefaultSort cfg))"
      unfolding sortLoop_all_asc keep by (simp add: orderClause_def)
    with Some False assms show ?thesis
      by (simp add: applySorting_def NewQueryBuilder_def Let_def)
  qed
qed

text \<open>The registered entity \<^verbatim>\<open>product\<close> is ordered by its default \<^verbatim>\<open>name\<close>, ascending; the
  unregistered \<^verbatim>\<open>order\<close> by \<^verbatim>\<open>created_at\<close>, descending.\<close>

theorem default_sort_witness:
  "SortBy ((DefaultQueryOptions :: string QueryOptions)\<lparr>SortBy := []\<rparr>) = []
   \<and> applySorting (ExampleRegistration Map.empty)
        (NewQueryBuilder (ExampleRegistration Map.empty) ''product'') []
        ((DefaultQueryOptions :: string QueryOptions)\<lparr>SortBy := []\<rparr>) = [Order ''name asc'']
   \<and> applySorting (ExampleRegistration Map.empty)
        (NewQueryBuilder (ExampleRegistration Map.empty) ''order'') []
        ((DefaultQueryOptions :: string QueryOptions)\<lparr>SortBy := []\<rparr>) = [Order ''created_at desc'']"
proof -
  have h: "SortBy ((DefaultQueryOptions :: string QueryOptions)\<lparr>SortBy := []\<rparr>) = []"
    by simp
  show ?thesis
    using default_sort_when_SortBy_empty [OF h, of "ExampleRegistration Map.empty" "''product''" "[]"]
      default_sort_when_SortBy_empty [OF h, of "ExampleRegistration Map.empty" "''order''" "[]"]
    by (simp add: GetConfig_def ExampleRegistration_def RegisterConfig_def)
qed

text \<open>The statement with "every column of DefaultSort" and "only if the entity has no
  configuration" fails: an entity registered with a default sort column that is not
  among its sortable columns gets no order at all, and an entity registered with an empty
  default sort gets the hard-coded order although it has a configuration.\<close>

theorem default_sort_not_always_used:
  "GetConfig (RegisterConfig Map.empty ''audit''
       \<lparr>SearchableColumns = [], SortableColumns = [''id''], DefaultSort = [''name''],
        DefaultIncludes = []\<rparr>) ''audit'' \<noteq> None
   \<and> applySorting
        (RegisterConfig Map.empty ''audit''
           \<lparr>SearchableColumns = [], SortableColumns = [''id''], DefaultSort = [''name''],
            DefaultIncludes = []\<rparr>)
        (NewQueryBuilder
           (RegisterConfig Map.empty ''audit''
              \<lparr>SearchableColumns = [], SortableColumns = [''id''], DefaultSort = [''name''],
               DefaultIncludes = []\<rparr>) ''audit'')
        [] ((DefaultQueryOptions :: string QueryOptions)\<lparr>SortBy := []\<rparr>) = []
   \<and> GetConfig (RegisterConfig Map.empty ''audit''
       \<lparr>SearchableColumns = [], SortableColumns = [''id''], DefaultSort = [],
        DefaultIncludes = []\<rparr>) ''audit'' \<noteq> None
   \<and> applySorting
        (RegisterConfig Map.empty ''audit''
           \<lparr>SearchableColumns = [], SortableColumns = [''id''], DefaultSort = [],
            DefaultIncludes = []\<rparr>)
        (NewQueryBuilder
           (RegisterConfig Map.empty ''audit''
              \<lparr>SearchableColumns = [], SortableColumns = [''id''], DefaultSort = [],
               DefaultIncludes = []\<rparr>) ''audit'')
        [] ((DefaultQueryOptions :: string QueryOptions)\<lparr>SortBy := []\<rparr>)
       = [Order ''created_at desc'']"
  by (simp add: builder_defs)

text \<open>
  C6 (as the code has it). For every builder and a non-empty \<^verbatim>\<open>SortBy\<close>: a requested column
  is skipped unless the builder's entity type is the empty string or \<^verbatim>\<open>IsValidSortColumn\<close>
  accepts the column; the retained columns keep the requested order; a retained column at
  position \<open>i\<close> of \<^verbatim>\<open>SortBy\<close> is ordered descending when \<^verbatim>\<open>SortOrder\<close> has an entry at
  position \<open>i\<close> that lower-cases to \<^verbatim>\<open>desc\<close>, and ascending otherwise; the clauses are joined
  with a comma in one order call, and no order is applied when no column is retained.
\<close>

theorem requested_sort_columns:
  assumes "SortBy opts \<noteq> []"
  shows "applySorting reg q db opts =
     (let retained = filter (\<lambda>(i, col). entityType q = '''' \<or>
                                         IsValidSortColumn reg (entityType q) col)
                       (enumerate 0 (SortBy opts));
          orderClauses =
            map (\<lambda>(i, col). col @ '' '' @
                   (if i < length (SortOrder opts) \<and> ToLower (SortOrder opts ! i) = ''desc''
                    then ''desc'' else ''asc''))
              retained
      in if orderClauses = [] then db else db @ [Order (Join orderClauses '', '')])"
  using assms by (simp add: applySorting_def sortLoop_enumerate orderClause_def Let_def)

text \<open>Requesting \<^verbatim>\<open>name,unknownCol\<close> with order \<^verbatim>\<open>desc\<close> on \<^verbatim>\<open>user\<close>, whose whitelist has
  \<^verbatim>\<open>name\<close> but not \<^verbatim>\<open>unknownCol\<close>, orders by \<^verbatim>\<open>name\<close> descending only.\<close>

theorem requested_sort_columns_witness:
  "SortBy ((DefaultQueryOptions :: string QueryOptions)
        \<lparr>SortBy := [''name'', ''unknownCol''], SortOrder := [''desc'']\<rparr>) \<noteq> []
   \<and> applySorting (ExampleRegistration Map.empty)
        (NewQueryBuilder (ExampleRegistration Map.empty) ''user'') []
        ((DefaultQueryOptions :: string QueryOptions)
           \<lparr>SortBy := [''name'', ''unknownCol''], SortOrder := [''desc'']\<rparr>)
       = [Order ''name desc'']"
proof -
  have h: "SortBy ((DefaultQueryOptions :: string QueryOptions)
        \<lparr>SortBy := [''name'', ''unknownCol''], SortOrder := [''desc'']\<rparr>) \<noteq> []"
    by simp
  show ?thesis
    using requested_sort_columns [OF h, of "ExampleRegistration Map.empty"
        "NewQueryBuilder (ExampleRegistration Map.empty) ''user''" "[]"]
    by (simp add: builder_defs)
qed

text \<open>Stated for every entity type, the property fails at the empty entity type: the guard
  \<^verbatim>\<open>q.entityType != ""\<close> switches the check off and a column that \<^verbatim>\<open>IsValidSortColumn\<close>
  rejects is kept.\<close>

theorem empty_entity_type_keeps_unlisted_sort_column:
  "\<not> IsValidSortColumn (ExampleRegistration Map.empty) '''' ''unknownCol''
   \<and> applySorting (ExampleRegistration Map.empty)
        (NewQueryBuilder (ExampleRegistration Map.empty) '''') []
        ((DefaultQueryOptions :: string QueryOptions)
           \<lparr>SortBy := [''name'', ''unknownCol''], SortOrder := [''desc'']\<rparr>)
       = [Order ''name desc, unknownCol asc'']"
  by (simp add: builder_defs)

subsection \<open>Search\<close>

text \<open>
  C7 (as the code has it). For every builder and a non-empty search term: the candidates are
  \<^verbatim>\<open>SearchColumns\<close> when non-empty, else the \<^verbatim>\<open>SearchableColumns\<close> of the builder's
  configuration (none without a configuration); a candidate is dropped unless the builder's
  entity type is the empty string or \<^verbatim>\<open>IsValidSearchColumn\<close> accepts it; every surviving
  column gives one condition \<^verbatim>\<open>col ILIKE ?\<close> whose argument is the term wrapped in \<^verbatim>\<open>%\<close>; the
  conditions are joined with \<^verbatim>\<open>OR\<close> inside one pair of parentheses in a single where call;
  and when no column survives the handle is returned unchanged.
\<close>

theorem search_conditions:
  assumes "Search opts \<noteq> ''''"
  shows "applySearch reg q db opts =
     (let candidates = (if SearchColumns opts \<noteq> [] then SearchColumns opts
                        else (case config q of Some c \<Rightarrow> SearchableColumns c | None \<Rightarrow> []));
          surviving = filter (\<lambda>col. entityType q = '''' \<or>
                                     IsValidSearchColumn reg (entityType q) col) candidates
      in if surviving = [] then db
         else db @ [Where (''('' @ Join (map (\<lambda>col. col @ '' ILIKE ?'') surviving) '' OR '' @ '')'')
                      (replicate (length surviving) (''%'' @ Search opts @ ''%''))])"
proof -
  have like: "likeCondition = (\<lambda>col. col @ '' ILIKE ?'')"
    by (rule ext) (simp add: likeCondition_def)
  show ?thesis
    using assms
    by (auto simp add: applySearch_def searchLoop_filter like Let_def split: option.splits)
qed

text \<open>Searching \<^verbatim>\<open>john\<close> in \<^verbatim>\<open>email,phone\<close> on an entity that whitelists only \<^verbatim>\<open>email\<close>
  gives the single condition on \<^verbatim>\<open>email\<close>.\<close>

theorem search_conditions_witness:
  "Search ((DefaultQueryOptions :: string QueryOptions)
        \<lparr>Search := ''john'', SearchColumns := [''email'', ''phone'']\<rparr>) \<noteq> ''''
   \<and> applySearch
        (RegisterConfig Map.empty ''contact''
           \<lparr>SearchableColumns = [''email''], SortableColumns = [], DefaultSort = [],
            DefaultIncludes = []\<rparr>)
        (NewQueryBuilder (RegisterConfig Map.empty ''contact''
           \<lparr>SearchableColumns = [''email''], SortableColumns = [], DefaultSort = [],
            DefaultIncludes = []\<rparr>) ''contact'') []
        ((DefaultQueryOptions :: string QueryOptions)
           \<lparr>Search := ''john'', SearchColumns := [''email'', ''phone'']\<rparr>)
       = [Where ''(email ILIKE ?)'' [''%john%'']]"
proof -
  have h: "Search ((DefaultQueryOptions :: string QueryOptions)
        \<lparr>Search := ''john'', SearchColumns := [''email'', ''phone'']\<rparr>) \<noteq> ''''"
    by simp
  show ?thesis
    using search_conditions [OF h, of "RegisterConfig Map.empty ''contact''
       \<lparr>SearchableColumns = [''email''], SortableColumns = [], DefaultSort = [],
        DefaultIncludes = []\<rparr>"
       "NewQueryBuilder (RegisterConfig Map.empty ''contact''
           \<lparr>SearchableColumns = [''email''], SortableColumns = [], DefaultSort = [],
            DefaultIncludes = []\<rparr>) ''contact''" "[]"]
    by (simp add: builder_defs)
qed

text \<open>Stated for every entity type, the property fails at the empty entity type, where the
  same guard keeps a column
  that \<^verbatim>\<open>IsValidSearchColumn\<close> rejects.\<close>

theorem empty_entity_type_keeps_unlisted_search_column:
  "\<not> IsValidSearchColumn
        (RegisterConfig Map.empty ''contact''
           \<lparr>SearchableColumns = [''email''], SortableColumns = [], DefaultSort = [],
            DefaultIncludes = []\<rparr>) '''' ''phone''
   \<and> applySearch
        (RegisterConfig Map.empty ''contact''
           \<lparr>SearchableColumns = [''email''], SortableColumns = [], DefaultSort = [],
            DefaultIncludes = []\<rparr>)
        (NewQueryBuilder (RegisterConfig Map.empty ''contact''
           \<lparr>SearchableColumns = [''email''], SortableColumns = [], DefaultSort = [],
            DefaultIncludes = []\<rparr>) '''') []
        ((DefaultQueryOptions :: string QueryOptions)
           \<lparr>Search := ''john'', SearchColumns := [''email'', ''phone'']\<rparr>)
       = [Where ''(email ILIKE ? OR phone ILIKE ?)'' [''%john%'', ''%john%'']]"
  by (simp add: builder_defs)

subsection \<open>The whitelist invariant\<close>

text \<open>
  C1 (as the code has it). For a builder whose entity type is not the empty string and every
  options value, the queries built by \<^verbatim>\<open>Build\<close> and \<^verbatim>\<open>BuildArchived\<close> are exactly the given
  handle followed by: the offset and the limit; at most one order call; the filter map when
  it is not empty; at most one search condition; the preloads; and the archive condition.
  The order call is the hard-coded \<^verbatim>\<open>created_at desc\<close> when neither \<^verbatim>\<open>SortBy\<close> nor the
  builder's \<^verbatim>\<open>DefaultSort\<close> names a column. Otherwise its clauses are, in the requested order,
  exactly the requested columns (\<^verbatim>\<open>SortBy\<close>, else \<^verbatim>\<open>DefaultSort\<close>) that are members of the
  \<^verbatim>\<open>SortableColumns\<close> registered for the entity type, each followed by \<^verbatim>\<open>asc\<close> or \<^verbatim>\<open>desc\<close>;
  no order call is made when none is a member. The search condition has one \<^verbatim>\<open>ILIKE\<close> for
  exactly the candidate columns that are members of the registered \<^verbatim>\<open>SearchableColumns\<close>, and
  is left out when none is. A requested column outside the whitelist therefore reaches
  neither clause.
\<close>

theorem whitelisted_columns_only:
  assumes "entityType q \<noteq> ''''"
  shows "let sortable = (case GetConfig reg (entityType q) of
                          None \<Rightarrow> [] | Some cfg \<Rightarrow> SortableColumns cfg);
             searchable = (case GetConfig reg (entityType q) of
                             None \<Rightarrow> [] | Some cfg \<Rightarrow> SearchableColumns cfg);
             page = (if Page opts <s 1 then 1 else Page opts);
             pageSize = (if PageSize opts <s 1 then 20
                         else if 100 <s PageSize opts then 100 else PageSize opts);
             pagination = [Offset ((page - 1) * pageSize), Limit pageSize];
             requested = (if SortBy opts = []
                          then (case config q of None \<Rightarrow> [] | Some c \<Rightarrow> DefaultSort c)
                          else SortBy opts);
             orders = (if SortBy opts = [] then [] else SortOrder opts);
             retained = filter (\<lambda>(i, col). col \<in> set sortable) (enumerate 0 requested);
             orderClauses =
               map (\<lambda>(i, col). col @ '' '' @
                      (if i < length orders \<and> ToLower (orders ! i) = ''desc''
                       then ''desc'' else ''asc''))
                 retained;
             sorting = (if requested = [] then [Order ''created_at desc'']
                        else if orderClauses = [] then []
                        else [Order (Join orderClauses '', '')]);
             filters = (if Mapping.is_empty (Filters opts) then []
                        else [WhereMap (Filters opts)]);
             candidates = (if SearchColumns opts \<noteq> [] then SearchColumns opts
                           else (case config q of
                                   Some c \<Rightarrow> SearchableColumns c | None \<Rightarrow> []));
             surviving = filter (\<lambda>col. col \<in> set searchable) candidates;
             search =
               (if Search opts = '''' \<or> surviving = [] then []
                else [Where (''('' @ Join (map (\<lambda>col. col @ '' ILIKE ?'') surviving) '' OR ''
                               @ '')'')
                        (replicate (length surviving) (''%'' @ Search opts @ ''%''))]);
             common = db @ pagination @ sorting @ filters @ search
                        @ map PreloadCall (Preload opts)
         in Build reg q db opts = common @ [Where ''deleted_at IS NULL'' []]
            \<and> BuildArchived reg q db opts
                = common @ [Unscoped, Where ''deleted_at IS NOT NULL'' []]"
proof -
  have flt: "applyFilters q [] opts =
      (if Mapping.is_empty (Filters opts) then [] else [WhereMap (Filters opts)])"
    by (simp add: applyFilters_def)
  show ?thesis
    unfolding Build_def BuildArchived_def applyQuery_parts
      applySorting_whitelisted [OF assms] applySearch_whitelisted [OF assms]
      applyPagination_calls flt
    by (simp add: Let_def)
qed

text \<open>On \<^verbatim>\<open>user\<close>, the requested column \<^verbatim>\<open>password\<close> appears neither in the order call nor in
  the search condition.\<close>

theorem whitelisted_columns_only_witness:
  "entityType (NewQueryBuilder (ExampleRegistration Map.empty) ''user'') \<noteq> ''''
   \<and> Build (ExampleRegistration Map.empty) (NewQueryBuilder (ExampleRegistration Map.empty) ''user'') []
         ((DefaultQueryOptions :: string QueryOptions)
            \<lparr>SortBy := [''name'', ''password''], SortOrder := [''DESC''],
             Search := ''john'', SearchColumns := [''email'', ''password'']\<rparr>)
       = [Offset 0, Limit 20, Order ''name desc'', Where ''(email ILIKE ?)'' [''%john%''],
          Where ''deleted_at IS NULL'' []]
   \<and> BuildArchived (ExampleRegistration Map.empty)
         (NewQueryBuilder (ExampleRegistration Map.empty) ''user'') []
         ((DefaultQueryOptions :: string QueryOptions)
            \<lparr>SortBy := [''name'', ''password''], SortOrder := [''DESC''],
             Search := ''john'', SearchColumns := [''email'', ''password'']\<rparr>)
       = [Offset 0, Limit 20, Order ''name desc'', Where ''(email ILIKE ?)'' [''%john%''],
          Unscoped, Where ''deleted_at IS NOT NULL'' []]"
proof -
  have h: "entityType (NewQueryBuilder (ExampleRegistration Map.empty) ''user'') \<noteq> ''''"
    by (simp add: NewQueryBuilder_def)
  show ?thesis
    using whitelisted_columns_only [OF h, of "ExampleRegistration Map.empty"
      "(DefaultQueryOptions :: string QueryOptions)
            \<lparr>SortBy := [''name'', ''password''], SortOrder := [''DESC''],
             Search := ''john'', SearchColumns := [''email'', ''password'']\<rparr>" "[]"]
    by (simp add: Let_def NewQueryBuilder_def GetConfig_def RegisterConfig_def
        ExampleRegistration_def DefaultQueryOptions_def DefaultPage_def DefaultPageSize_def
        ToLower_def toLowerChar_def char_of_eq_iff word_sless_alt)
qed

text \<open>Stated for every entity type, the invariant fails at the empty entity type: no check is
  made and the requested column reaches both clauses.\<close>

theorem empty_entity_type_skips_whitelist:
  "\<not> IsValidSortColumn (ExampleRegistration Map.empty) '''' ''password''
   \<and> \<not> IsValidSearchColumn (ExampleRegistration Map.empty) '''' ''password''
   \<and> Build (ExampleRegistration Map.empty) (NewQueryBuilder (ExampleRegistration Map.empty) '''') []
         ((DefaultQueryOptions :: string QueryOptions)
            \<lparr>SortBy := [''password''], Search := ''x'', SearchColumns := [''password'']\<rparr>)
       = [Offset 0, Limit 20, Order ''password desc'', Where ''(password ILIKE ?)'' [''%x%''],
          Where ''deleted_at IS NULL'' []]"
  by (simp add: builder_defs)

subsection \<open>Count\<close>

text \<open>
  C2. \<^verbatim>\<open>Count\<close> runs the count on the query that \<^verbatim>\<open>applyQuery\<close> builds, which starts with
  the offset and the limit of \<^verbatim>\<open>applyPagination\<close>: for page 3 of the default options the
  counted query carries offset 40 and limit 20.
\<close>

theorem Count_runs_paginated_query:
  "Count gormCount reg q db opts archived = gormCount (applyQuery reg q db opts archived)
   \<and> (\<exists>rest. applyQuery reg q db opts archived = applyPagination q db opts @ rest)
   \<and> Count gormCount (ExampleRegistration Map.empty)
        (NewQueryBuilder (ExampleRegistration Map.empty) ''user'') []
        ((DefaultQueryOptions :: string QueryOptions)\<lparr>Page := 3\<rparr>) False
       = gormCount [Offset 40, Limit 20, Order ''created_at desc'', Where ''deleted_at IS NULL'' []]"
proof -
  have "applyQuery reg q db opts archived = applyPagination q db opts @
      (applySorting reg q [] opts @ applyFilters q [] opts
        @ applySearch reg q [] opts @ map PreloadCall (Preload opts)
        @ (if archived then [Unscoped, Where ''deleted_at IS NOT NULL'' []]
           else [Where ''deleted_at IS NULL'' []]))"
    using applyQuery_parts [of reg q db opts archived] applyPagination_append [of q db opts]
    by simp
  then have "\<exists>rest. applyQuery reg q db opts archived = applyPagination q db opts @ rest" ..
  moreover have "Count gormCount (ExampleRegistration Map.empty)
        (NewQueryBuilder (ExampleRegistration Map.empty) ''user'') []
        ((DefaultQueryOptions :: string QueryOptions)\<lparr>Page := 3\<rparr>) False
       = gormCount [Offset 40, Limit 20, Order ''created_at desc'', Where ''deleted_at IS NULL'' []]"
    by (simp add: Count_def CountQuery_def Session_def builder_defs word_sless_alt)
  ultimately show ?thesis by (simp add: Count_def CountQuery_def Session_def)
qed

subsection \<open>The request parser\<close>

text \<open>
  C9 (as the code has it). For a request with no \<^verbatim>\<open>sortOrder\<close> parameter,
  \<^verbatim>\<open>ParseFromRequest\<close> returns options whose \<^verbatim>\<open>SortOrder\<close> is the \<^verbatim>\<open>["desc"]\<close> of
  \<^verbatim>\<open>DefaultQueryOptions\<close>, and whose \<^verbatim>\<open>SortBy\<close> is the split \<^verbatim>\<open>sortBy\<close> parameter when the
  request has one. Passed to a builder, these options order the retained columns (those the
  builder does not skip) with the column at position 0 descending and every later one
  ascending. So the first requested column is ordered descending if the builder retains it,
  that is if its entity type is the empty string or \<^verbatim>\<open>IsValidSortColumn\<close> accepts the column;
  if the builder skips it, every order key is ascending.
\<close>

theorem missing_sortOrder_sorts_first_column_descending:
  assumes "Mapping.lookup c ''sortOrder'' = None"
  shows "SortOrder (ParseFromRequest c) = [''desc'']
     \<and> SortBy (ParseFromRequest c) =
         (if Query c ''sortBy'' \<noteq> '''' then Split (Query c ''sortBy'') CHR '','' else [''created_at''])
     \<and> SortBy (ParseFromRequest c) \<noteq> []
     \<and> applySorting reg q db (ParseFromRequest c) =
         (let retained = filter (\<lambda>(i, col). entityType q = '''' \<or>
                                             IsValidSortColumn reg (entityType q) col)
                           (enumerate 0 (SortBy (ParseFromRequest c)));
              orderClauses = map (\<lambda>(i, col). col @ (if i = 0 then '' desc'' else '' asc''))
                               retained
          in if orderClauses = [] then db else db @ [Order (Join orderClauses '', '')])
     \<and> (entityType q = '''' \<or>
          IsValidSortColumn reg (entityType q) (hd (SortBy (ParseFromRequest c))) \<longrightarrow>
          (\<exists>others. applySorting reg q db (ParseFromRequest c) =
             db @ [Order (Join ((hd (SortBy (ParseFromRequest c)) @ '' desc'') # others) '', '')]))"
proof -
  from assms have "Query c ''sortOrder'' = ''''" by (simp add: Query_def)
  then have so: "SortOrder (ParseFromRequest c) = [''desc'']"
    by (simp add: ParseFromRequest_SortOrder)
  have sb: "SortBy (ParseFromRequest c) =
         (if Query c ''sortBy'' \<noteq> '''' then Split (Query c ''sortBy'') CHR '','' else [''created_at''])"
    by (rule ParseFromRequest_SortBy)
  have ne: "SortBy (ParseFromRequest c) \<noteq> []"
    by (simp add: sb Split_nonempty)
  define col where "col = hd (SortBy (ParseFromRequest c))"
  define cols where "cols = tl (SortBy (ParseFromRequest c))"
  have cc: "SortBy (ParseFromRequest c) = col # cols"
    using ne by (simp add: col_def cols_def)
  have eq: "applySorting reg q db (ParseFromRequest c) =
         (let retained = filter (\<lambda>(i, col). entityType q = '''' \<or>
                                             IsValidSortColumn reg (entityType q) col)
                           (enumerate 0 (SortBy (ParseFromRequest c)));
              orderClauses = map (\<lambda>(i, col). col @ (if i = 0 then '' desc'' else '' asc''))
                               retained
          in if orderClauses = [] then db else db @ [Order (Join orderClauses '', '')])"
    using ne by (simp add: applySorting_def so Let_def sortLoop_only_first_desc del: sortLoop.simps)
  have first: "\<exists>others. applySorting reg q db (ParseFromRequest c) =
                         db @ [Order (Join ((col @ '' desc'') # others) '', '')]"
    if "entityType q = '''' \<or> IsValidSortColumn reg (entityType q) col"
  proof -
    have sl: "sortLoop reg q [''desc''] 0 (col # cols) =
            (col @ '' desc'') # sortLoop reg q [''desc''] (Suc 0) cols"
      using that by (auto simp add: Let_def orderClause_def ToLower_def toLowerChar_def)
    have "applySorting reg q db (ParseFromRequest c) =
            db @ [Order (Join ((col @ '' desc'') # sortLoop reg q [''desc''] (Suc 0) cols) '', '')]"
      by (simp add: applySorting_def so cc Let_def sl del: sortLoop.simps)
    then show ?thesis
      by (rule exI [where x = "sortLoop reg q [''desc''] (Suc 0) cols" and
            P = "\<lambda>others. applySorting reg q db (ParseFromRequest c) =
                         db @ [Order (Join ((col @ '' desc'') # others) '', '')]"])
  qed
  show ?thesis
  proof (intro conjI impI)
    show "SortOrder (ParseFromRequest c) = [''desc'']" by (rule so)
    show "SortBy (ParseFromRequest c) =
         (if Query c ''sortBy'' \<noteq> '''' then Split (Query c ''sortBy'') CHR '','' else [''created_at''])"
      by (rule sb)
    show "SortBy (ParseFromRequest c) \<noteq> []" by (rule ne)
    show "applySorting reg q db (ParseFromRequest c) =
         (let retained = filter (\<lambda>(i, col). entityType q = '''' \<or>
                                             IsValidSortColumn reg (entityType q) col)
                           (enumerate 0 (SortBy (ParseFromRequest c)));
              orderClauses = map (\<lambda>(i, col). col @ (if i = 0 then '' desc'' else '' asc''))
                               retained
          in if orderClauses = [] then db else db @ [Order (Join orderClauses '', '')])"
      by (rule eq)
    assume "entityType q = '''' \<or>
          IsValidSortColumn reg (entityType q) (hd (SortBy (ParseFromRequest c)))"
    then show "\<exists>others. applySorting reg q db (ParseFromRequest c) =
             db @ [Order (Join ((hd (SortBy (ParseFromRequest c)) @ '' desc'') # others) '', '')]"
      unfolding col_def [symmetric] by (rule first)
  qed
qed

text \<open>The request \<^verbatim>\<open>?sortBy=name,email\<close> on \<^verbatim>\<open>user\<close> is ordered by \<^verbatim>\<open>name\<close> descending, then
  \<^verbatim>\<open>email\<close> ascending.\<close>

theorem missing_sortOrder_witness:
  "Mapping.lookup (Mapping.update ''sortBy'' [''name,email''] Mapping.empty) ''sortOrder'' = None
   \<and> SortOrder (ParseFromRequest (Mapping.update ''sortBy'' [''name,email''] Mapping.empty)) = [''desc'']
   \<and> SortBy (ParseFromRequest (Mapping.update ''sortBy'' [''name,email''] Mapping.empty))
       = [''name'', ''email'']
   \<and> IsValidSortColumn (ExampleRegistration Map.empty)
        (entityType (NewQueryBuilder (ExampleRegistration Map.empty) ''user'')) ''name''
   \<and> applySorting (ExampleRegistration Map.empty)
        (NewQueryBuilder (ExampleRegistration Map.empty) ''user'') []
        (ParseFromRequest (Mapping.update ''sortBy'' [''name,email''] Mapping.empty))
       = [Order ''name desc, email asc'']"
proof -
  have h: "Mapping.lookup (Mapping.update ''sortBy'' [''name,email''] Mapping.empty) ''sortOrder'' = None"
    by (simp add: lookup_update')
  have q: "Query (Mapping.update ''sortBy'' [''name,email''] Mapping.empty) ''sortBy'' = ''name,email''"
    by (simp add: Query_def)
  note t = missing_sortOrder_sorts_first_column_descending [OF h,
      where q = "NewQueryBuilder (ExampleRegistration Map.empty) ''user''"
        and reg = "ExampleRegistration Map.empty" and db = "[]"]
  from t have so: "SortOrder (ParseFromRequest (Mapping.update ''sortBy'' [''name,email''] Mapping.empty)) = [''desc'']"
    by (rule conjunct1)
  from t have sb: "SortBy (ParseFromRequest (Mapping.update ''sortBy'' [''name,email''] Mapping.empty))
       = [''name'', ''email'']"
    by (simp add: q)
  have v: "IsValidSortColumn (ExampleRegistration Map.empty)
        (entityType (NewQueryBuilder (ExampleRegistration Map.empty) ''user'')) ''name''"
    by (simp add: builder_defs)
  from t have "applySorting (ExampleRegistration Map.empty)
        (NewQueryBuilder (ExampleRegistration Map.empty) ''user'') []
        (ParseFromRequest (Mapping.update ''sortBy'' [''name,email''] Mapping.empty))
       = [Order ''name desc, email asc'']"
    by (simp add: sb NewQueryBuilder_def GetConfig_def RegisterConfig_def
        IsValidSortColumn_def ExampleRegistration_def Let_def)
  with h so sb v show ?thesis by simp
qed

text \<open>Without the condition that the builder retains the first requested column the
  property fails: for the request \<^verbatim>\<open>?sortBy=password,name\<close> on \<^verbatim>\<open>user\<close> the first column is
  dropped and the only order key, \<^verbatim>\<open>name\<close>, is ascending.\<close>

theorem dropped_first_column_leaves_ascending_order:
  "Mapping.lookup (Mapping.update ''sortBy'' [''password,name''] Mapping.empty) ''sortOrder'' = None
   \<and> SortBy (ParseFromRequest (Mapping.update ''sortBy'' [''password,name''] Mapping.empty))
       = [''password'', ''name'']
   \<and> SortOrder (ParseFromRequest (Mapping.update ''sortBy'' [''password,name''] Mapping.empty))
       = [''desc'']
   \<and> applySorting (ExampleRegistration Map.empty)
        (NewQueryBuilder (ExampleRegistration Map.empty) ''user'') []
        (ParseFromRequest (Mapping.update ''sortBy'' [''password,name''] Mapping.empty))
       = [Order ''name asc'']"
proof -
  have q: "Query (Mapping.update ''sortBy'' [''password,name''] Mapping.empty) key
             = (if key = ''sortBy'' then ''password,name'' else '''')" for key
    by (simp add: Query_def lookup_update')
  have so: "SortOrder (ParseFromRequest (Mapping.update ''sortBy'' [''password,name''] Mapping.empty))
       = [''desc'']"
    by (simp add: ParseFromRequest_SortOrder q)
  have sb: "SortBy (ParseFromRequest (Mapping.update ''sortBy'' [''password,name''] Mapping.empty))
       = [''password'', ''name'']"
    by (simp add: ParseFromRequest_SortBy q)
  have "applySorting (ExampleRegistration Map.empty)
        (NewQueryBuilder (ExampleRegistration Map.empty) ''user'') []
        (ParseFromRequest (Mapping.update ''sortBy'' [''password,name''] Mapping.empty))
       = [Order ''name asc'']"
    by (simp add: applySorting_def so sb NewQueryBuilder_def GetConfig_def RegisterConfig_def
        IsValidSortColumn_def ExampleRegistration_def orderClause_def ToLower_def toLowerChar_def
        Let_def)
  with so sb show ?thesis by (simp add: lookup_update')
qed

subsection \<open>Response helpers\<close>

text \<open>
  C8. For a total of at least 0 and a page size of at least 1, \<^verbatim>\<open>PaginatedResponse\<close> returns
  a response whose \<^verbatim>\<open>total_pages\<close> field is the ceiling of total divided by page size.
\<close>

theorem PaginatedResponse_total_pages_ceiling:
  assumes "0 \<le>s total'" and "1 \<le>s pageSize"
  shows "\<exists>h tp. PaginatedResponse data total' page pageSize = Inr h
           \<and> h ''total_pages'' = Some (IntV tp)
           \<and> sint tp = \<lceil>real_of_int (sint total') / real_of_int (sint pageSize)\<rceil>"
proof -
  have t: "0 \<le> sint total'" and p: "1 \<le> sint pageSize"
    using assms by (simp_all add: word_sle_eq)
  from p have nz: "pageSize \<noteq> 0" by auto
  define tp where
    "tp = (if 0 <s go_rem total' pageSize then go_quo total' pageSize + 1 else go_quo total' pageSize)"
  have q: "sint (go_quo total' pageSize) = sint total' div sint pageSize"
    by (rule sint_go_quo [OF t p])
  have r: "sint (go_rem total' pageSize) = sint total' mod sint pageSize"
    by (rule sint_go_rem [OF t p])
  have "sint tp = (if 0 < sint total' mod sint pageSize
                   then sint total' div sint pageSize + 1 else sint total' div sint pageSize)"
  proof (cases "0 < sint total' mod sint pageSize")
    case True
    then have "2 \<le> sint pageSize" using p
      by (smt (verit) mod_by_1)
    then have "sint total' div sint pageSize \<le> sint total' div 2"
      using t by (simp add: zdiv_mono2)
    then have "sint total' div sint pageSize + 1 < 2 ^ 63"
      using sint_bounds_64(2) [of total'] t by simp
    moreover have "0 \<le> sint total' div sint pageSize"
      using t p by (simp add: pos_imp_zdiv_nonneg_iff)
    moreover have "go_quo total' pageSize + 1 = word_of_int (sint (go_quo total' pageSize) + 1)"
      by simp
    ultimately have "sint (go_quo total' pageSize + 1) = sint total' div sint pageSize + 1"
      using q sint_word_of_int_64 [of "sint (go_quo total' pageSize) + 1"] by simp
    with True r show ?thesis by (simp add: tp_def word_sless_alt)
  next
    case False
    with q r show ?thesis by (simp add: tp_def word_sless_alt)
  qed
  then have "sint tp = \<lceil>real_of_int (sint total') / real_of_int (sint pageSize)\<rceil>"
    using total_pages_ceiling [OF t p] by simp
  moreover have "PaginatedResponse data total' page pageSize =
      Inr [''data'' \<mapsto> DataV data, ''total'' \<mapsto> IntV total', ''page'' \<mapsto> IntV page,
           ''page_size'' \<mapsto> IntV pageSize, ''total_pages'' \<mapsto> IntV tp]"
    using nz by (simp add: PaginatedResponse_def tp_def Let_def)
  ultimately show ?thesis by simp
qed

text \<open>A total of 105 with a page size of 20 gives 6 pages.\<close>

theorem PaginatedResponse_total_pages_witness:
  "(0::go_int) \<le>s 105 \<and> (1::go_int) \<le>s 20 \<and>
   (\<exists>h tp. PaginatedResponse ([]::nat list) 105 1 20 = Inr h
      \<and> h ''total_pages'' = Some (IntV tp) \<and> sint tp = 6)"
proof -
  have a: "(0::go_int) \<le>s 105" and b: "(1::go_int) \<le>s 20"
    by (simp_all add: word_sle_eq)
  from PaginatedResponse_total_pages_ceiling [OF a b, of "[]::nat list" 1]
  show ?thesis using a b by simp
qed

text \<open>
  C3. With a page size of 0 the division in \<^verbatim>\<open>PaginatedResponse\<close> and in
  \<^verbatim>\<open>RespondWithPagination\<close> is a division by zero: both panic, whatever the other
  arguments are, and no response is produced.
\<close>

theorem pageSize_zero_panics:
  "PaginatedResponse data total' page 0 = Inl DivideByZero
   \<and> (RespondWithPagination c status total' page 0 :: panic + 'a H) = Inl DivideByZero"
  by (simp add: PaginatedResponse_def RespondWithPagination_def)

text \<open>
  C10. \<^verbatim>\<open>ParseEntityType\<close> returns the string \<^verbatim>\<open>t\<close> for every argument: the argument is
  never looked at.
\<close>

theorem ParseEntityType_constant: "ParseEntityType entity = ''t''"
  by (simp add: ParseEntityType_def ToLower_def toLowerChar_def)

end
